theory Spec2Isabelle
  imports Main "HOL-Library.Word" "HOL-Library.AList"
begin

section \<open>JavaScript strings\<close>

text \<open>
  A JavaScript string is a sequence of UTF-16 code units. The literals of the program are
  ASCII, written here with \<open>str\<close>.
\<close>

type_synonym jsstring = "16 word list"

definition str :: "string \<Rightarrow> jsstring" where
  "str = map of_char"

definition nl :: jsstring where
  "nl = [0x0A]"

text \<open>
  \<open>String.prototype.trim\<close> removes the leading and trailing WhiteSpace and LineTerminator
  code points of ECMAScript: TAB, VT, FF, SP, NBSP, ZWNBSP, the Unicode space separators,
  LF, CR, LS and PS. All of them are single code units.
\<close>

definition is_ws :: "16 word \<Rightarrow> bool" where
  "is_ws c \<longleftrightarrow>
     c = 0x0009 \<or> c = 0x000A \<or> c = 0x000B \<or> c = 0x000C \<or> c = 0x000D \<or> c = 0x0020 \<or>
     c = 0x00A0 \<or> c = 0x1680 \<or> (0x2000 \<le> c \<and> c \<le> 0x200A) \<or> c = 0x2028 \<or> c = 0x2029 \<or>
     c = 0x202F \<or> c = 0x205F \<or> c = 0x3000 \<or> c = 0xFEFF"

definition trim :: "jsstring \<Rightarrow> jsstring" where
  "trim s = rev (dropWhile is_ws (rev (dropWhile is_ws s)))"

text \<open>\<open>Array.prototype.join\<close> on an array of strings.\<close>

fun join :: "jsstring \<Rightarrow> jsstring list \<Rightarrow> jsstring" where
  "join sep [] = []"
| "join sep [x] = x"
| "join sep (x # y # ys) = x @ sep @ join sep (y # ys)"

section \<open>The input template: \<open>buildStructuredText\<close>\<close>

text \<open>
  The function destructures its argument into five fields. A field is \<open>None\<close> when it is
  \<open>undefined\<close> or \<open>null\<close>, where \<open>field?.trim()\<close> is \<open>undefined\<close> and the block is skipped;
  otherwise the block runs when the trimmed text is a non-empty string.
\<close>

definition buildStructuredText ::
  "jsstring option \<Rightarrow> jsstring option \<Rightarrow> jsstring option \<Rightarrow> jsstring option \<Rightarrow>
   jsstring option \<Rightarrow> jsstring" where
  "buildStructuredText topic decision stakeholders constraints context =
     (let lines0 = [];
          lines1 = (case topic of
                      None \<Rightarrow> lines0
                    | Some t \<Rightarrow>
                        if trim t \<noteq> []
                        then lines0 @ [str ''# Topic / Problem Statement'', trim t, []]
                        else lines0);
          lines2 = (case decision of
                      None \<Rightarrow> lines1
                    | Some t \<Rightarrow>
                        if trim t \<noteq> []
                        then lines1 @ [str ''# Decision to make (Blue Hat)'', trim t, []]
                        else lines1);
          lines3 = (case stakeholders of
                      None \<Rightarrow> lines2
                    | Some t \<Rightarrow>
                        if trim t \<noteq> []
                        then lines2 @ [str ''# Stakeholders'', trim t, []]
                        else lines2);
          lines4 = (case constraints of
                      None \<Rightarrow> lines3
                    | Some t \<Rightarrow>
                        if trim t \<noteq> []
                        then lines3 @ [str ''# Constraints / Non-negotiables'', trim t, []]
                        else lines3);
          lines5 = (case context of
                      None \<Rightarrow> lines4
                    | Some t \<Rightarrow>
                        if trim t \<noteq> []
                        then lines4 @ [str ''# Context (optional)'', trim t, []]
                        else lines4)
      in trim (join nl lines5))"

text \<open>
  The same document in the words of the specification: the headings in their fixed order,
  each paired with its field; a field counts as empty when it is absent or blank.
\<close>

definition trimmed :: "jsstring option \<Rightarrow> jsstring" where
  "trimmed f = (case f of None \<Rightarrow> [] | Some t \<Rightarrow> trim t)"

definition template_sections ::
  "jsstring option \<Rightarrow> jsstring option \<Rightarrow> jsstring option \<Rightarrow> jsstring option \<Rightarrow>
   jsstring option \<Rightarrow> (jsstring \<times> jsstring) list" where
  "template_sections topic decision stakeholders constraints context =
     [(str ''# Topic / Problem Statement'', trimmed topic),
      (str ''# Decision to make (Blue Hat)'', trimmed decision),
      (str ''# Stakeholders'', trimmed stakeholders),
      (str ''# Constraints / Non-negotiables'', trimmed constraints),
      (str ''# Context (optional)'', trimmed context)]"

definition section_block :: "jsstring \<times> jsstring \<Rightarrow> jsstring" where
  "section_block p = fst p @ nl @ snd p"

definition structured_text_spec ::
  "jsstring option \<Rightarrow> jsstring option \<Rightarrow> jsstring option \<Rightarrow> jsstring option \<Rightarrow>
   jsstring option \<Rightarrow> jsstring" where
  "structured_text_spec topic decision stakeholders constraints context =
     join (nl @ nl)
       (map section_block
          (filter (\<lambda>p. snd p \<noteq> [])
             (template_sections topic decision stakeholders constraints context)))"

section \<open>JavaScript values\<close>

text \<open>
  The values the program holds in its state and receives from \<open>response.json()\<close>. A number
  is its IEEE 754 double, as 64 bits. An object is the list of its own properties in order;
  the objects here are parsed from JSON or built by an object literal.
\<close>

datatype jsval =
    Undefined
  | Null
  | Bool bool
  | Num "64 word"
  | Str jsstring
  | Arr "jsval list"
  | Obj "(jsstring \<times> jsval) list"

text \<open>
  ToBoolean: \<open>undefined\<close>, \<open>null\<close>, \<open>false\<close>, \<open>+0\<close>, \<open>-0\<close>, \<open>NaN\<close> and the empty string are falsy.
  A double is a zero when all bits but the sign are clear, and a NaN when the exponent bits
  are all set and the fraction is not zero.
\<close>

fun truthy :: "jsval \<Rightarrow> bool" where
  "truthy Undefined = False"
| "truthy Null = False"
| "truthy (Bool b) = b"
| "truthy (Num d) =
     (take_bit 63 d \<noteq> 0 \<and> \<not> (drop_bit 52 (take_bit 63 d) = 0x7FF \<and> take_bit 52 d \<noteq> 0))"
| "truthy (Str s) = (s \<noteq> [])"
| "truthy (Arr xs) = True"
| "truthy (Obj ps) = True"

text \<open>
  Reading a property \<open>v.k\<close> throws a TypeError on \<open>undefined\<close> and \<open>null\<close>. The names the
  program reads (\<open>analysis\<close>, \<open>meta\<close>, \<open>answer_length\<close>, \<open>detail\<close>, \<open>status\<close> and the hat keys)
  are on no prototype, so the read gives the own property or \<open>undefined\<close>.
\<close>

datatype js_throw = TypeError

fun get_prop :: "jsval \<Rightarrow> jsstring \<Rightarrow> js_throw + jsval" where
  "get_prop Undefined k = Inl TypeError"
| "get_prop Null k = Inl TypeError"
| "get_prop (Obj ps) k = Inr (case map_of ps k of None \<Rightarrow> Undefined | Some v \<Rightarrow> v)"
| "get_prop v k = Inr Undefined"

text \<open>Optional chaining \<open>v?.k\<close>: \<open>undefined\<close> where \<open>v\<close> is \<open>undefined\<close> or \<open>null\<close>.\<close>

definition opt_prop :: "jsval \<Rightarrow> jsstring \<Rightarrow> jsval" where
  "opt_prop v k = (case get_prop v k of Inl e \<Rightarrow> Undefined | Inr w \<Rightarrow> w)"

text \<open>\<open>a || b\<close> on strings.\<close>

definition or_else :: "jsstring \<Rightarrow> jsstring \<Rightarrow> jsstring" where
  "or_else a b = (if a \<noteq> [] then a else b)"

text \<open>
  \<open>Object.fromEntries\<close>, and the object spread with one computed key
  \<open>{ ...prev, [k]: v }\<close>: an existing key keeps its place, a new key goes last.
\<close>

definition Object_fromEntries :: "(jsstring \<times> 'v) list \<Rightarrow> (jsstring \<times> 'v) list" where
  "Object_fromEntries es = foldl (\<lambda>obj e. AList.update (fst e) (snd e) obj) [] es"

section \<open>The hats\<close>

record hat =
  key :: jsstring
  label :: jsstring
  description :: jsstring
  prompt :: jsstring

definition HATS :: "hat list" where
  "HATS =
     [\<lparr>key = str ''blue'',
       label = str ''Blue'',
       description = str ''Big picture & facilitation'',
       prompt = str ''Manage the process: clarify the purpose, question, scope, priorities, and the hat sequence.''\<rparr>,
      \<lparr>key = str ''white'',
       label = str ''White'',
       description = str ''Facts & information'',
       prompt = str ''List what is known, what is assumed, and what information/data is needed next.''\<rparr>,
      \<lparr>key = str ''red'',
       label = str ''Red'',
       description = str ''Feelings & intuitions'',
       prompt = str ''Surface gut reactions, hopes, fears, and stakeholder emotions (no justification needed).''\<rparr>,
      \<lparr>key = str ''yellow'',
       label = str ''Yellow'',
       description = str ''Benefits & opportunities'',
       prompt = str ''Identify value, upsides, and conditions under which the idea is likely to succeed.''\<rparr>,
      \<lparr>key = str ''black'',
       label = str ''Black'',
       description = str ''Risks & failure modes'',
       prompt = str ''Identify what could go wrong, constraints, unintended consequences, and minimum safety conditions.''\<rparr>,
      \<lparr>key = str ''green'',
       label = str ''Green'',
       description = str ''New ideas & alternatives'',
       prompt = str ''Generate options, improvements, lateral provocations, and quick experiments (no criticism).''\<rparr>]"

definition API_PREFIX :: jsstring where
  "API_PREFIX = str ''/api''"

definition EXAMPLE_TOPIC :: jsstring where
  "EXAMPLE_TOPIC =
     str ''We are considering replacing traditional closed-book exams with open-book, AI-assisted assessments in a university module.''
     @ nl @ nl @
     str ''We want to decide whether to adopt this change next semester, and if so, how to implement it responsibly.''"

section \<open>The state of \<open>App\<close>\<close>

text \<open>
  \<open>mode\<close> is only ever \<open>'text'\<close> or \<open>'pdf'\<close>. \<open>analysis\<close> and \<open>answerLength\<close> hold whatever the
  server's JSON gave. \<open>notesByHat\<close> is an object with string values.
\<close>

datatype input_mode = TextMode | PdfMode

datatype js_file = File (file_name: jsstring) (file_bytes: "8 word list")

record app_state =
  mode :: input_mode
  topic :: jsstring
  decision :: jsstring
  stakeholders :: jsstring
  constraints :: jsstring
  context_field :: jsstring
  fileValue :: "js_file option"
  analysis :: jsval
  selectedHat :: jsstring
  loading :: bool
  error :: jsstring
  downloadLoading :: bool
  answerLength :: jsval
  notesByHat :: "(jsstring \<times> jsstring) list"
  isMobile :: bool
  hatMenuOpen :: bool

definition init_state :: app_state where
  "init_state =
     \<lparr>mode = TextMode,
      topic = [], decision = [], stakeholders = [], constraints = [], context_field = [],
      fileValue = None,
      analysis = Null,
      selectedHat = str ''blue'',
      loading = False,
      error = [],
      downloadLoading = False,
      answerLength = Str (str ''long''),
      notesByHat = Object_fromEntries (map (\<lambda>h. (key h, [])) HATS),
      isMobile = False,
      hatMenuOpen = False\<rparr>"

definition structuredText :: "app_state \<Rightarrow> jsstring" where
  "structuredText s =
     buildStructuredText (Some (topic s)) (Some (decision s)) (Some (stakeholders s))
       (Some (constraints s)) (Some (context_field s))"

definition isReadyToAnalyze :: "app_state \<Rightarrow> bool" where
  "isReadyToAnalyze s =
     (if mode s = TextMode then length (trim (structuredText s)) > 0
      else fileValue s \<noteq> None)"

definition activeAnalysis :: "app_state \<Rightarrow> jsval" where
  "activeAnalysis s = opt_prop (analysis s) (selectedHat s)"

definition activeHat :: "app_state \<Rightarrow> hat option" where
  "activeHat s = find (\<lambda>h. key h = selectedHat s) HATS"

section \<open>Requests\<close>

text \<open>
  What a handler passes to \<open>fetch\<close>. \<open>JsonBody ms\<close> is the JSON text of an object with the
  members \<open>ms\<close>, in this order; \<open>JSON.stringify\<close> leaves out a property whose value is
  \<open>undefined\<close>. \<open>FormBody\<close> is a \<open>FormData\<close> with the appended entries; a value that is
  not a file is appended as its string.
\<close>

datatype form_value = FormFile js_file | FormText jsval

datatype request_body =
    JsonBody "(jsstring \<times> jsval) list"
  | FormBody "(jsstring \<times> form_value) list"

record request =
  url :: jsstring
  http_method :: jsstring
  headers :: "(jsstring \<times> jsstring) list"
  body :: request_body

definition JSON_stringify :: "(jsstring \<times> jsval) list \<Rightarrow> request_body" where
  "JSON_stringify props = JsonBody (filter (\<lambda>p. snd p \<noteq> Undefined) props)"

definition notes_object :: "(jsstring \<times> jsstring) list \<Rightarrow> jsval" where
  "notes_object notes = Obj (map (\<lambda>p. (fst p, Str (snd p))) notes)"

section \<open>\<open>handleAnalyze\<close>\<close>

text \<open>
  The handler runs up to its \<open>await fetch\<close> on the state of the render it was created in,
  and returns the new state with the request it issued, if any. Without a request it has
  returned at the guard.
\<close>

definition handleAnalyze :: "app_state \<Rightarrow> app_state \<times> request option" where
  "handleAnalyze s =
     (let s1 = s\<lparr>error := []\<rparr> in
      if \<not> isReadyToAnalyze s
      then (s1\<lparr>error := str ''Please enter a topic/problem statement or upload a PDF to continue.''\<rparr>,
            None)
      else
        let s2 = s1\<lparr>loading := True, analysis := Null\<rparr> in
        (case (if mode s = PdfMode then fileValue s else None) of
           Some file \<Rightarrow>
             (s2, Some \<lparr>url = API_PREFIX @ str ''/analyze'',
                        http_method = str ''POST'',
                        headers = [],
                        body = FormBody [(str ''file'', FormFile file),
                                         (str ''answer_length'', FormText (answerLength s))]\<rparr>)
         | None \<Rightarrow>
             (s2, Some \<lparr>url = API_PREFIX @ str ''/analyze'',
                        http_method = str ''POST'',
                        headers = [(str ''Content-Type'', str ''application/json'')],
                        body = JSON_stringify [(str ''text'', Str (structuredText s)),
                                               (str ''answer_length'', answerLength s)]\<rparr>)))"

text \<open>
  How the request settles: \<open>fetch\<close> rejects with an error whose message is given, or gives a
  response with its \<open>ok\<close> flag, whose \<open>json()\<close> gives the parsed value or rejects with a
  message. \<open>runtime_text\<close> is the message the JavaScript runtime produces in this run where
  it makes one: the TypeError of reading a property of \<open>null\<close>, and the string of a value
  that is not a string given to \<open>new Error\<close>.
\<close>

datatype fetch_outcome =
    Rejected jsstring
  | Response bool "jsstring + jsval"

record reply =
  outcome :: fetch_outcome
  runtime_text :: jsstring

text \<open>The \<open>catch\<close> and \<open>finally\<close> blocks of \<open>handleAnalyze\<close>, for an error with this message.\<close>

definition analyze_caught :: "jsstring \<Rightarrow> app_state \<Rightarrow> app_state" where
  "analyze_caught msg s =
     s\<lparr>error := or_else msg (str ''Something went wrong. Please try again.''), loading := False\<rparr>"

text \<open>The message of \<open>new Error(v)\<close>.\<close>

definition error_message :: "jsstring \<Rightarrow> jsval \<Rightarrow> jsstring" where
  "error_message rt v = (case v of Str m \<Rightarrow> m | _ \<Rightarrow> rt)"

text \<open>
  The rest of \<open>handleAnalyze\<close>, after the \<open>await\<close>. The setters write the current state;
  scrolling the results into view changes no state.
\<close>

definition handleAnalyze_settle :: "reply \<Rightarrow> app_state \<Rightarrow> app_state" where
  "handleAnalyze_settle r s =
     (case outcome r of
        Rejected msg \<Rightarrow> analyze_caught msg s
      | Response ok parsed \<Rightarrow>
          if \<not> ok then
            (let detail = (case parsed of Inl e \<Rightarrow> Obj [] | Inr v \<Rightarrow> v) in
             case get_prop detail (str ''detail'') of
               Inl e \<Rightarrow> analyze_caught (runtime_text r) s
             | Inr d \<Rightarrow>
                 analyze_caught
                   (error_message (runtime_text r)
                      (if truthy d then d else Str (str ''Analysis failed. Please try again.'')))
                   s)
          else
            (case parsed of
               Inl msg \<Rightarrow> analyze_caught msg s
             | Inr data \<Rightarrow>
                 (case get_prop data (str ''analysis'') of
                    Inl e \<Rightarrow> analyze_caught (runtime_text r) s
                  | Inr a \<Rightarrow>
                      let s1 = s\<lparr>analysis := a\<rparr>;
                          len = opt_prop (opt_prop data (str ''meta'')) (str ''answer_length'');
                          s2 = (if truthy len then s1\<lparr>answerLength := len\<rparr> else s1);
                          s3 = s2\<lparr>selectedHat := str ''blue''\<rparr>;
                          s4 = s3\<lparr>hatMenuOpen := False\<rparr>
                      in s4\<lparr>loading := False\<rparr>)))"

section \<open>\<open>handleDownload\<close>\<close>

definition handleDownload :: "app_state \<Rightarrow> app_state \<times> request option" where
  "handleDownload s =
     (if \<not> truthy (analysis s) then (s, None)
      else
        (s\<lparr>downloadLoading := True\<rparr>,
         Some \<lparr>url = API_PREFIX @ str ''/generate-pdf'',
               http_method = str ''POST'',
               headers = [(str ''Content-Type'', str ''application/json'')],
               body = JSON_stringify [(str ''analysis'', analysis s),
                                      (str ''answer_length'', answerLength s),
                                      (str ''notes'', notes_object (notesByHat s))]\<rparr>))"

text \<open>
  How the report request settles: \<open>fetch\<close> rejects, or gives a response with its \<open>ok\<close> flag,
  whose \<open>blob()\<close> resolves (\<open>None\<close>) or rejects with a message. Saving the blob through a
  temporary anchor changes no state.
\<close>

datatype download_outcome =
    DownloadRejected jsstring
  | DownloadResponse bool "jsstring option"

definition download_caught :: "jsstring \<Rightarrow> app_state \<Rightarrow> app_state" where
  "download_caught msg s =
     s\<lparr>error := or_else msg (str ''Unable to download the report.''), downloadLoading := False\<rparr>"

definition handleDownload_settle :: "download_outcome \<Rightarrow> app_state \<Rightarrow> app_state" where
  "handleDownload_settle d s =
     (case d of
        DownloadRejected msg \<Rightarrow> download_caught msg s
      | DownloadResponse ok blob \<Rightarrow>
          if \<not> ok then download_caught (str ''Failed to generate PDF report.'') s
          else (case blob of
                  Some msg \<Rightarrow> download_caught msg s
                | None \<Rightarrow> s\<lparr>downloadLoading := False\<rparr>))"

section \<open>\<open>handleCopy\<close> and the notes\<close>

text \<open>\<open>handleCopy\<close>; the argument tells whether \<open>clipboard.writeText\<close> resolves.\<close>

definition handleCopy :: "bool \<Rightarrow> app_state \<Rightarrow> app_state" where
  "handleCopy written s =
     (let active = opt_prop (analysis s) (selectedHat s) in
      if \<not> truthy active \<or> opt_prop active (str ''status'') \<noteq> Str (str ''ok'') then s
      else if written then s
      else s\<lparr>error := str ''Copy failed. Your browser may block clipboard access.''\<rparr>)"

definition setNotesForHat :: "jsstring \<Rightarrow> jsstring \<Rightarrow> app_state \<Rightarrow> app_state" where
  "setNotesForHat hatKey v s = s\<lparr>notesByHat := AList.update hatKey v (notesByHat s)\<rparr>"

section \<open>The user interface as events\<close>

text \<open>
  One event for each handler the rendered page attaches. An event on an element that the
  current render does not show, or shows disabled, changes nothing. The two \<open>Settled\<close>
  events are the continuations of the two requests.
\<close>

datatype event =
    ClickTextMode
  | ClickPdfMode
  | ClickLongAnswer
  | ClickShortAnswer
  | ChangeTopic jsstring
  | ChangeDecision jsstring
  | ChangeStakeholders jsstring
  | ChangeConstraints jsstring
  | ChangeContext jsstring
  | ClickUseExample
  | ChangeFile "js_file option"
  | ClickAnalyze
  | AnalyzeSettled reply
  | ClickDownload
  | DownloadSettled download_outcome
  | ClickCopy bool
  | ClickHatTab nat
  | ClickActiveHat
  | ClickOtherHat nat
  | ChangeNotes jsstring
  | ClickClearNotes
  | MediaChange bool

text \<open>The hats of the collapsed selector on a small screen: all but the active one.\<close>

definition otherHats :: "app_state \<Rightarrow> hat list" where
  "otherHats s = filter (\<lambda>h. key h \<noteq> selectedHat s) HATS"

fun step :: "event \<Rightarrow> app_state \<Rightarrow> app_state" where
  "step ClickTextMode s = s\<lparr>mode := TextMode\<rparr>"
| "step ClickPdfMode s = s\<lparr>mode := PdfMode\<rparr>"
| "step ClickLongAnswer s = s\<lparr>answerLength := Str (str ''long'')\<rparr>"
| "step ClickShortAnswer s = s\<lparr>answerLength := Str (str ''short'')\<rparr>"
| "step (ChangeTopic v) s = (if mode s = TextMode then s\<lparr>topic := v\<rparr> else s)"
| "step (ChangeDecision v) s = (if mode s = TextMode then s\<lparr>decision := v\<rparr> else s)"
| "step (ChangeStakeholders v) s = (if mode s = TextMode then s\<lparr>stakeholders := v\<rparr> else s)"
| "step (ChangeConstraints v) s = (if mode s = TextMode then s\<lparr>constraints := v\<rparr> else s)"
| "step (ChangeContext v) s = (if mode s = TextMode then s\<lparr>context_field := v\<rparr> else s)"
| "step ClickUseExample s =
     (if mode s = TextMode then
        s\<lparr>topic := EXAMPLE_TOPIC,
          decision := str ''Decide whether to adopt AI-assisted open-book assessment next semester, and define an implementation approach.'',
          stakeholders := str ''Students; instructors; teaching assistants; programme administrators; accreditation stakeholders.'',
          constraints := str ''Maintain academic integrity; ensure accessibility; comply with policy; limited marking capacity; semester timeline.'',
          context_field := str ''Recent student feedback suggests stress and rote learning; the module aims to emphasise applied reasoning and authentic work.''\<rparr>
      else s)"
| "step (ChangeFile f) s = (if mode s = PdfMode then s\<lparr>fileValue := f\<rparr> else s)"
| "step ClickAnalyze s = (if loading s then s else fst (handleAnalyze s))"
| "step (AnalyzeSettled r) s = handleAnalyze_settle r s"
| "step ClickDownload s =
     (if \<not> truthy (analysis s) \<or> downloadLoading s then s else fst (handleDownload s))"
| "step (DownloadSettled d) s = handleDownload_settle d s"
| "step (ClickCopy written) s =
     (if \<not> truthy (analysis s) \<or> opt_prop (activeAnalysis s) (str ''status'') \<noteq> Str (str ''ok'')
      then s else handleCopy written s)"
| "step (ClickHatTab i) s =
     (if isMobile s \<or> \<not> truthy (analysis s) \<or> length HATS \<le> i then s
      else s\<lparr>selectedHat := key (HATS ! i)\<rparr>)"
| "step ClickActiveHat s =
     (if \<not> isMobile s \<or> \<not> truthy (analysis s) then s
      else s\<lparr>hatMenuOpen := \<not> hatMenuOpen s\<rparr>)"
| "step (ClickOtherHat i) s =
     (if \<not> isMobile s \<or> \<not> hatMenuOpen s \<or> \<not> truthy (analysis s) \<or> length (otherHats s) \<le> i
      then s
      else s\<lparr>selectedHat := key (otherHats s ! i), hatMenuOpen := False\<rparr>)"
| "step (ChangeNotes v) s = setNotesForHat (selectedHat s) v s"
| "step ClickClearNotes s =
     (case map_of (notesByHat s) (selectedHat s) of
        None \<Rightarrow> s
      | Some note \<Rightarrow> if note = [] then s else setNotesForHat (selectedHat s) [] s)"
| "step (MediaChange mobile) s =
     (let s1 = s\<lparr>isMobile := mobile\<rparr> in
      if \<not> mobile then s1\<lparr>hatMenuOpen := False\<rparr> else s1)"

text \<open>The state after a sequence of events, from the initial render.\<close>

definition run :: "event list \<Rightarrow> app_state" where
  "run evs = foldl (\<lambda>s e. step e s) init_state evs"

section \<open>The hat orchestrator\<close>

text \<open>
  Modelled from the spec: the Hat Orchestrator of section 4.2, which runs on the server and
  is not among the sources. Given the normalized document and the answer length, it builds
  for each of the six roles the prompt (the role's instruction for that length, then the
  document), issues one request to the backend for it, and turns the outcome into that
  role's result: the text, or a result with status error and the message. The backend and
  the instruction texts are parameters; the backend is given the role it is called for, so
  that any pattern of successes and failures over the six calls is one such function.
\<close>

datatype HatRole = Blue | White | Red | Yellow | Black | Green

datatype AnswerLength = Short | Long

datatype BackendError = BackendError jsstring

datatype HatResult =
    HatOk (role: HatRole) jsstring
  | HatError (role: HatRole) jsstring

definition hat_roles :: "HatRole list" where
  "hat_roles = [Blue, White, Red, Yellow, Black, Green]"

definition run_hat ::
  "(HatRole \<Rightarrow> jsstring \<Rightarrow> BackendError + jsstring) \<Rightarrow> (HatRole \<Rightarrow> AnswerLength \<Rightarrow> jsstring) \<Rightarrow>
   jsstring \<Rightarrow> AnswerLength \<Rightarrow> HatRole \<Rightarrow> HatResult" where
  "run_hat complete instruction document len r =
     (case complete r (instruction r len @ document) of
        Inl (BackendError msg) \<Rightarrow> HatError r msg
      | Inr content \<Rightarrow> HatOk r content)"

definition orchestrate ::
  "(HatRole \<Rightarrow> jsstring \<Rightarrow> BackendError + jsstring) \<Rightarrow> (HatRole \<Rightarrow> AnswerLength \<Rightarrow> jsstring) \<Rightarrow>
   jsstring \<Rightarrow> AnswerLength \<Rightarrow> HatResult list" where
  "orchestrate complete instruction document len =
     map (run_hat complete instruction document len) hat_roles"

section \<open>Auxiliary predicates\<close>

text \<open>
  A section of the document as the proofs need it: the heading starts with a character
  that is not white space, and the text ends with one.
\<close>

definition good_block :: "jsstring \<times> jsstring \<Rightarrow> bool" where
  "good_block p \<longleftrightarrow>
     fst p \<noteq> [] \<and> \<not> is_ws (hd (fst p)) \<and> snd p \<noteq> [] \<and> \<not> is_ws (last (snd p))"

text \<open>What every state of a run satisfies.\<close>

definition state_inv :: "app_state \<Rightarrow> bool" where
  "state_inv s \<longleftrightarrow>
     selectedHat s \<in> key ` set HATS \<and>
     map fst (notesByHat s) = map key HATS \<and>
     answerLength s \<noteq> Undefined"

text \<open>The two events of the notes panel.\<close>

fun is_notes_event :: "event \<Rightarrow> bool" where
  "is_notes_event (ChangeNotes v) = True"
| "is_notes_event ClickClearNotes = True"
| "is_notes_event e = False"

section \<open>Strings: trimming and joining\<close>

text \<open>\<open>str\<close> is injective: program literals are compared as the texts they are written with.\<close>

lemma of_char_word16_eq_iff: "(of_char c :: 16 word) = of_char d \<longleftrightarrow> c = d"
proof
  assume "(of_char c :: 16 word) = of_char d"
  then have "unat (of_nat (of_char c) :: 16 word) = unat (of_nat (of_char d) :: 16 word)"
    by (simp add: of_nat_of_char)
  moreover have "(of_char c :: nat) < 2 ^ 16" "(of_char d :: nat) < 2 ^ 16"
    by (rule less_trans [OF nat_of_char_less_256], simp)+
  ultimately have "(of_char c :: nat) = of_char d"
    by (simp add: unat_of_nat)
  then show "c = d" by simp
qed simp

lemma str_eq_iff [simp]: "str a = str b \<longleftrightarrow> a = b"
  by (simp add: str_def inj_map_eq_map inj_def of_char_word16_eq_iff)

lemma str_eq_Nil_iff [simp]: "str a = [] \<longleftrightarrow> a = []" "[] = str a \<longleftrightarrow> a = []"
  by (auto simp: str_def)

lemma join_Cons: "join sep (x # xs) = (if xs = [] then x else x @ sep @ join sep xs)"
  by (cases xs) simp_all

lemma trim_Nil [simp]: "trim [] = []"
  by (simp add: trim_def)

lemma trim_last: "trim s \<noteq> [] \<Longrightarrow> \<not> is_ws (last (trim s))"
  by (simp add: trim_def last_rev hd_dropWhile)

lemma trimmed_last: "trimmed f \<noteq> [] \<Longrightarrow> \<not> is_ws (last (trimmed f))"
  by (cases f) (simp_all add: trimmed_def trim_last)

lemma trim_id:
  assumes "xs \<noteq> []" "\<not> is_ws (hd xs)" "\<not> is_ws (last xs)"
  shows "trim xs = xs"
proof -
  from assms have d: "dropWhile is_ws xs = xs"
    by (cases xs) simp_all
  from assms have "dropWhile is_ws (rev xs) = rev xs"
    by (cases "rev xs") (auto simp: last_rev hd_rev)
  then show ?thesis by (simp add: trim_def d)
qed

lemma trim_drops_final_newline:
  assumes "xs \<noteq> []" "\<not> is_ws (hd xs)" "\<not> is_ws (last xs)"
  shows "trim (xs @ nl) = xs"
proof -
  have ws: "is_ws 0x0A" by (simp add: is_ws_def)
  from assms have d: "dropWhile is_ws (xs @ nl) = xs @ nl"
    by (cases xs) (simp_all add: nl_def)
  have "dropWhile is_ws (rev (xs @ nl)) = rev xs"
    using assms ws by (cases "rev xs") (auto simp: nl_def last_rev hd_rev)
  then show ?thesis by (simp add: trim_def d)
qed

text \<open>
  Joining the pushed lines with a newline gives the blocks separated by an empty line,
  and one newline after the last block, which comes from the empty string pushed last.
\<close>

lemma join_lines_blocks:
  "join nl (concat (map (\<lambda>p. [fst p, snd p, []]) bs)) =
     (if bs = [] then [] else join (nl @ nl) (map section_block bs) @ nl)"
proof (induction bs)
  case Nil
  show ?case by simp
next
  case (Cons b bs)
  show ?case
  proof (cases "bs = []")
    case True
    then show ?thesis by (simp add: section_block_def)
  next
    case False
    then have "concat (map (\<lambda>p. [fst p, snd p, []]) bs) \<noteq> []"
      by (cases bs) simp_all
    with False Cons show ?thesis
      by (simp add: join_Cons section_block_def)
  qed
qed

lemma join_blocks_ends:
  "bs \<noteq> [] \<Longrightarrow> list_all good_block bs \<Longrightarrow>
     join (nl @ nl) (map section_block bs) \<noteq> [] \<and>
     \<not> is_ws (hd (join (nl @ nl) (map section_block bs))) \<and>
     \<not> is_ws (last (join (nl @ nl) (map section_block bs)))"
proof (induction bs)
  case Nil
  then show ?case by simp
next
  case (Cons b bs)
  show ?case
  proof (cases "bs = []")
    case True
    with Cons.prems show ?thesis
      by (simp add: section_block_def good_block_def)
  next
    case False
    define rest where "rest = join (nl @ nl) (map section_block bs)"
    from False Cons have ih: "rest \<noteq> []" "\<not> is_ws (last rest)"
      by (simp_all add: rest_def)
    from Cons.prems have b: "fst b \<noteq> []" "\<not> is_ws (hd (fst b))"
      by (simp_all add: good_block_def)
    have "join (nl @ nl) (map section_block (b # bs)) = fst b @ nl @ snd b @ nl @ nl @ rest"
      using False by (simp add: join_Cons rest_def section_block_def [of b])
    with ih b show ?thesis
      by simp
  qed
qed

section \<open>The structured document\<close>

lemma section_step:
  "(case f of None \<Rightarrow> ls | Some t \<Rightarrow> if trim t \<noteq> [] then ls @ [h, trim t, []] else ls) =
     ls @ concat (map (\<lambda>p. [fst p, snd p, []]) (filter (\<lambda>p. snd p \<noteq> []) [(h, trimmed f)]))"
  by (simp add: trimmed_def split: option.split)

lemma heading_str:
  "str (CHR ''#'' # cs) \<noteq> []" "\<not> is_ws (hd (str (CHR ''#'' # cs)))"
  by (simp_all add: str_def is_ws_def)

lemma template_sections_good:
  "list_all good_block (filter (\<lambda>p. snd p \<noteq> []) (template_sections t d sh c x))"
  by (simp add: template_sections_def good_block_def trimmed_last heading_str)

lemma buildStructuredText_lines:
  "buildStructuredText t d sh c x =
     trim (join nl (concat (map (\<lambda>p. [fst p, snd p, []])
       (filter (\<lambda>p. snd p \<noteq> []) (template_sections t d sh c x)))))"
  unfolding buildStructuredText_def Let_def section_step template_sections_def
  by simp

lemma buildStructuredText_blocks:
  "buildStructuredText t d sh c x =
     join (nl @ nl)
       (map section_block (filter (\<lambda>p. snd p \<noteq> []) (template_sections t d sh c x)))"
proof -
  define bs where "bs = filter (\<lambda>p. snd p \<noteq> []) (template_sections t d sh c x)"
  have good: "list_all good_block bs"
    unfolding bs_def by (rule template_sections_good)
  show ?thesis
  proof (cases "bs = []")
    case True
    then show ?thesis
      by (simp add: buildStructuredText_lines flip: bs_def)
  next
    case False
    from join_blocks_ends [OF False good]
    have "trim (join (nl @ nl) (map section_block bs) @ nl) = join (nl @ nl) (map section_block bs)"
      by (intro trim_drops_final_newline) simp_all
    with False show ?thesis
      by (simp add: buildStructuredText_lines join_lines_blocks flip: bs_def)
  qed
qed

text \<open>
  Claim C2: for all five fields, \<open>buildStructuredText\<close> returns the sections of exactly the
  fields that are not empty after trimming, in the order topic, decision, stakeholders,
  constraints, context; each section is its fixed heading line followed by the trimmed
  field, sections are separated by an empty line, and a field that is absent, empty or
  only white space is left out together with its heading.
\<close>

theorem buildStructuredText_spec:
  "buildStructuredText t d sh c x = structured_text_spec t d sh c x"
  by (simp add: buildStructuredText_blocks structured_text_spec_def)

theorem buildStructuredText_spec_witness:
  "structured_text_spec (Some (str '' hi '')) None (Some (str ''  '')) (Some (str ''x'')) (Some []) =
     str ''# Topic / Problem Statement'' @ nl @ str ''hi'' @ nl @ nl @
     str ''# Constraints / Non-negotiables'' @ nl @ str ''x''"
proof -
  have "buildStructuredText (Some (str '' hi '')) None (Some (str ''  '')) (Some (str ''x'')) (Some []) =
     str ''# Topic / Problem Statement'' @ nl @ str ''hi'' @ nl @ nl @
     str ''# Constraints / Non-negotiables'' @ nl @ str ''x''"
    by (simp add: buildStructuredText_def trim_def is_ws_def str_def nl_def)
  with buildStructuredText_spec
    [of "Some (str '' hi '')" None "Some (str ''  '')" "Some (str ''x'')" "Some []"]
  show ?thesis by simp
qed

text \<open>The document is empty exactly when all five fields are blank, and it is trimmed.\<close>

lemma buildStructuredText_empty_iff:
  "buildStructuredText t d sh c x = [] \<longleftrightarrow>
     trimmed t = [] \<and> trimmed d = [] \<and> trimmed sh = [] \<and> trimmed c = [] \<and> trimmed x = []"
proof -
  define bs where "bs = filter (\<lambda>p. snd p \<noteq> []) (template_sections t d sh c x)"
  have good: "list_all good_block bs"
    unfolding bs_def by (rule template_sections_good)
  have e: "bs = [] \<longleftrightarrow>
      trimmed t = [] \<and> trimmed d = [] \<and> trimmed sh = [] \<and> trimmed c = [] \<and> trimmed x = []"
    by (simp add: bs_def template_sections_def)
  have "buildStructuredText t d sh c x = [] \<longleftrightarrow> bs = []"
  proof (cases "bs = []")
    case True
    then show ?thesis by (simp add: buildStructuredText_blocks flip: bs_def)
  next
    case False
    with join_blocks_ends [OF False good] show ?thesis
      by (simp add: buildStructuredText_blocks flip: bs_def)
  qed
  with e show ?thesis by simp
qed

lemma trim_buildStructuredText:
  "trim (buildStructuredText t d sh c x) = buildStructuredText t d sh c x"
proof -
  define bs where "bs = filter (\<lambda>p. snd p \<noteq> []) (template_sections t d sh c x)"
  have good: "list_all good_block bs"
    unfolding bs_def by (rule template_sections_good)
  show ?thesis
  proof (cases "bs = []")
    case True
    then show ?thesis by (simp add: buildStructuredText_blocks flip: bs_def)
  next
    case False
    from join_blocks_ends [OF False good]
    have "trim (join (nl @ nl) (map section_block bs)) = join (nl @ nl) (map section_block bs)"
      by (intro trim_id) simp_all
    then show ?thesis by (simp add: buildStructuredText_blocks flip: bs_def)
  qed
qed

section \<open>The guard of \<open>handleAnalyze\<close>\<close>

text \<open>
  In text mode the guard looks at the whole document: the analysis is refused exactly when
  all five fields are blank, and then nothing but the message changes.
\<close>

lemma isReadyToAnalyze_text:
  "mode s = TextMode \<Longrightarrow>
     isReadyToAnalyze s \<longleftrightarrow>
       \<not> (trim (topic s) = [] \<and> trim (decision s) = [] \<and> trim (stakeholders s) = [] \<and>
          trim (constraints s) = [] \<and> trim (context_field s) = [])"
  using buildStructuredText_empty_iff
    [of "Some (topic s)" "Some (decision s)" "Some (stakeholders s)" "Some (constraints s)"
        "Some (context_field s)"]
  by (simp add: isReadyToAnalyze_def structuredText_def trim_buildStructuredText trimmed_def)

lemma handleAnalyze_refused:
  "\<not> isReadyToAnalyze s \<Longrightarrow>
     handleAnalyze s =
       (s\<lparr>error := str ''Please enter a topic/problem statement or upload a PDF to continue.''\<rparr>,
        None)"
  by (simp add: handleAnalyze_def)

lemma handleAnalyze_sends: "isReadyToAnalyze s \<Longrightarrow> snd (handleAnalyze s) \<noteq> None"
  by (simp add: handleAnalyze_def Let_def split: option.split)

lemmas eval_defs =
  run_def init_state_def handleAnalyze_def isReadyToAnalyze_def structuredText_def
  buildStructuredText_def trim_def is_ws_def str_def nl_def Let_def JSON_stringify_def
  API_PREFIX_def

text \<open>
  Claim C1: a text-mode submission whose topic is empty or only white space is refused and
  no request is sent, whatever the other fields hold. The code does not do this: after the
  topic is set to three spaces and the decision to \<open>x\<close>, the topic is blank, the mode is
  text, and \<open>handleAnalyze\<close> sets no error, starts loading and posts the document, which
  holds the decision section only.
\<close>

theorem handleAnalyze_blank_topic_sends:
  "trim (topic (run [ChangeTopic (str ''   ''), ChangeDecision (str ''x'')])) = [] \<and>
   mode (run [ChangeTopic (str ''   ''), ChangeDecision (str ''x'')]) = TextMode \<and>
   handleAnalyze (run [ChangeTopic (str ''   ''), ChangeDecision (str ''x'')]) =
     ((run [ChangeTopic (str ''   ''), ChangeDecision (str ''x'')])\<lparr>loading := True\<rparr>,
      Some \<lparr>url = str ''/api/analyze'',
            http_method = str ''POST'',
            headers = [(str ''Content-Type'', str ''application/json'')],
            body = JsonBody [(str ''text'',
                               Str (str ''# Decision to make (Blue Hat)'' @ nl @ str ''x'')),
                             (str ''answer_length'', Str (str ''long''))]\<rparr>)"
  by (simp add: eval_defs)

section \<open>The hat orchestrator\<close>

lemma role_run_hat: "role (run_hat c i d l r) = r"
  by (simp add: run_hat_def split: sum.split BackendError.split)

lemma hat_roles_count: "length (filter (\<lambda>x. x = r) hat_roles) = 1"
  by (cases r) (simp_all add: hat_roles_def)

text \<open>
  Claim C3: an analysis run gives exactly one result for each of the six roles, whatever
  the backend answers to each call: every role has one result, the results are those of
  the six roles in their order, and there are six of them.
\<close>

theorem orchestrate_one_result_per_role:
  "length (filter (\<lambda>h. role h = r) (orchestrate complete instruction document len)) = 1 \<and>
   map role (orchestrate complete instruction document len) = hat_roles \<and>
   length (orchestrate complete instruction document len) = 6"
proof -
  have m: "map role (orchestrate complete instruction document len) = hat_roles"
    by (simp add: orchestrate_def role_run_hat comp_def)
  have "filter (\<lambda>h. role h = r) (orchestrate complete instruction document len) =
        map (run_hat complete instruction document len) (filter (\<lambda>x. x = r) hat_roles)"
    by (simp add: orchestrate_def filter_map comp_def role_run_hat)
  then have "length (filter (\<lambda>h. role h = r) (orchestrate complete instruction document len)) = 1"
    by (simp add: hat_roles_count)
  moreover have "length (orchestrate complete instruction document len) = 6"
    by (simp add: orchestrate_def hat_roles_def)
  ultimately show ?thesis using m by simp
qed

theorem orchestrate_one_result_per_role_witness:
  "orchestrate (\<lambda>r p. if r = White then Inl (BackendError (str ''timeout'')) else Inr p)
     (\<lambda>r l. []) (str ''doc'') Short =
     [HatOk Blue (str ''doc''), HatError White (str ''timeout''), HatOk Red (str ''doc''),
      HatOk Yellow (str ''doc''), HatOk Black (str ''doc''), HatOk Green (str ''doc'')] \<and>
   length (filter (\<lambda>h. role h = White)
     (orchestrate (\<lambda>r p. if r = White then Inl (BackendError (str ''timeout'')) else Inr p)
        (\<lambda>r l. []) (str ''doc'') Short)) = 1"
  using orchestrate_one_result_per_role
    [of White "\<lambda>r p. if r = White then Inl (BackendError (str ''timeout'')) else Inr p"
        "\<lambda>r l. []" "str ''doc''" Short]
  by (simp add: orchestrate_def run_hat_def hat_roles_def)

section \<open>The hats\<close>

text \<open>
  Claim C4: the hats are the six keys blue, white, red, yellow, black, green, in this
  order and without repetition, and each hat has a label, a description and a facilitator
  prompt. \<open>HATS\<close> is a constant and no component of the state, so no event changes it.
\<close>

theorem HATS_enumeration:
  "map key HATS = map str [''blue'', ''white'', ''red'', ''yellow'', ''black'', ''green''] \<and>
   distinct (map key HATS) \<and>
   list_all (\<lambda>h. label h \<noteq> [] \<and> description h \<noteq> [] \<and> prompt h \<noteq> []) HATS"
  by (simp add: HATS_def)

section \<open>The invariant of the state\<close>

lemma blue_key: "str ''blue'' \<in> key ` set HATS"
  by (simp add: HATS_def)

lemma state_inv_init: "state_inv init_state"
  by (simp add: state_inv_def init_state_def Object_fromEntries_def HATS_def)

lemma otherHats_key: "i < length (otherHats s) \<Longrightarrow> key (otherHats s ! i) \<in> key ` set HATS"
proof -
  assume "i < length (otherHats s)"
  then have "otherHats s ! i \<in> set (otherHats s)" by (rule nth_mem)
  then have "otherHats s ! i \<in> set HATS" by (simp add: otherHats_def)
  then show ?thesis by simp
qed

lemma state_inv_settle: "state_inv s \<Longrightarrow> state_inv (handleAnalyze_settle r s)"
  by (auto simp: state_inv_def handleAnalyze_settle_def analyze_caught_def Let_def blue_key
        split: fetch_outcome.splits sum.splits)

lemma state_inv_setNotes: "state_inv s \<Longrightarrow> state_inv (setNotesForHat (selectedHat s) v s)"
  by (simp add: state_inv_def setNotesForHat_def update_keys)

lemma state_inv_step: "state_inv s \<Longrightarrow> state_inv (step e s)"
proof (cases e)
  case (AnalyzeSettled r)
  assume "state_inv s"
  with AnalyzeSettled show ?thesis by (simp add: state_inv_settle)
next
  case (ChangeNotes v)
  assume "state_inv s"
  with ChangeNotes show ?thesis by (simp add: state_inv_setNotes)
next
  case ClickClearNotes
  assume "state_inv s"
  with ClickClearNotes show ?thesis by (simp add: state_inv_setNotes split: option.split)
next
  case (ClickOtherHat i)
  assume "state_inv s"
  with ClickOtherHat show ?thesis
    using otherHats_key [of i s] by (simp add: state_inv_def)
next
  case (ClickHatTab i)
  assume "state_inv s"
  with ClickHatTab show ?thesis by (simp add: state_inv_def)
qed (simp_all add: state_inv_def handleAnalyze_def handleDownload_def handleDownload_settle_def
        download_caught_def handleCopy_def Let_def split: option.split download_outcome.split)

lemma run_snoc: "run (evs @ [e]) = step e (run evs)"
  by (simp add: run_def)

lemma run_Nil: "run [] = init_state"
  by (simp add: run_def)

lemma state_inv_run: "state_inv (run evs)"
  by (induction evs rule: rev_induct) (simp_all add: run_Nil run_snoc state_inv_init state_inv_step)

lemma answerLength_run: "answerLength (run evs) \<noteq> Undefined"
  using state_inv_run [of evs] by (simp add: state_inv_def)

section \<open>The two requests\<close>

lemma handleAnalyze_request:
  "answerLength s \<noteq> Undefined \<Longrightarrow> snd (handleAnalyze s) = Some r \<Longrightarrow>
    (mode s = TextMode \<and>
     r = \<lparr>url = API_PREFIX @ str ''/analyze'', http_method = str ''POST'',
          headers = [(str ''Content-Type'', str ''application/json'')],
          body = JsonBody [(str ''text'', Str (structuredText s)),
                           (str ''answer_length'', answerLength s)]\<rparr>) \<or>
    (mode s = PdfMode \<and>
     (\<exists>f. fileValue s = Some f \<and>
        r = \<lparr>url = API_PREFIX @ str ''/analyze'', http_method = str ''POST'',
             headers = [],
             body = FormBody [(str ''file'', FormFile f),
                              (str ''answer_length'', FormText (answerLength s))]\<rparr>))"
  by (cases "mode s")
     (auto simp: handleAnalyze_def isReadyToAnalyze_def Let_def JSON_stringify_def
           split: if_splits option.splits)

text \<open>
  Claim C5: in every state of a run, a request that \<open>handleAnalyze\<close> issues has one of two
  shapes, by the input mode. In text mode it posts a JSON body with exactly the members
  \<open>text\<close>, the structured document, and \<open>answer_length\<close>. In PDF mode it posts a form with
  exactly the entries \<open>file\<close>, the chosen file, and \<open>answer_length\<close>.
\<close>

theorem handleAnalyze_request_shape:
  "snd (handleAnalyze (run evs)) = Some r \<Longrightarrow>
    (mode (run evs) = TextMode \<and>
     r = \<lparr>url = API_PREFIX @ str ''/analyze'', http_method = str ''POST'',
          headers = [(str ''Content-Type'', str ''application/json'')],
          body = JsonBody [(str ''text'', Str (structuredText (run evs))),
                           (str ''answer_length'', answerLength (run evs))]\<rparr>) \<or>
    (mode (run evs) = PdfMode \<and>
     (\<exists>f. fileValue (run evs) = Some f \<and>
        r = \<lparr>url = API_PREFIX @ str ''/analyze'', http_method = str ''POST'',
             headers = [],
             body = FormBody [(str ''file'', FormFile f),
                              (str ''answer_length'', FormText (answerLength (run evs)))]\<rparr>))"
  using handleAnalyze_request [OF answerLength_run] .

theorem handleAnalyze_request_shape_witness:
  "snd (handleAnalyze (run [ChangeTopic (str ''Hi''), ClickShortAnswer])) =
     Some \<lparr>url = str ''/api/analyze'', http_method = str ''POST'',
           headers = [(str ''Content-Type'', str ''application/json'')],
           body = JsonBody [(str ''text'', Str (str ''# Topic / Problem Statement'' @ nl @ str ''Hi'')),
                            (str ''answer_length'', Str (str ''short''))]\<rparr> \<and>
   mode (run [ChangeTopic (str ''Hi''), ClickShortAnswer]) = TextMode \<and>
   snd (handleAnalyze (run [ClickPdfMode, ChangeFile (Some (File (str ''a.pdf'') [0x25]))])) =
     Some \<lparr>url = str ''/api/analyze'', http_method = str ''POST'',
           headers = [],
           body = FormBody [(str ''file'', FormFile (File (str ''a.pdf'') [0x25])),
                            (str ''answer_length'', FormText (Str (str ''long'')))]\<rparr> \<and>
   mode (run [ClickPdfMode, ChangeFile (Some (File (str ''a.pdf'') [0x25]))]) = PdfMode"
proof -
  have t: "snd (handleAnalyze (run [ChangeTopic (str ''Hi''), ClickShortAnswer])) =
     Some \<lparr>url = str ''/api/analyze'', http_method = str ''POST'',
           headers = [(str ''Content-Type'', str ''application/json'')],
           body = JsonBody [(str ''text'', Str (str ''# Topic / Problem Statement'' @ nl @ str ''Hi'')),
                            (str ''answer_length'', Str (str ''short''))]\<rparr>"
    by (simp add: eval_defs)
  have p: "snd (handleAnalyze (run [ClickPdfMode, ChangeFile (Some (File (str ''a.pdf'') [0x25]))])) =
     Some \<lparr>url = str ''/api/analyze'', http_method = str ''POST'',
           headers = [],
           body = FormBody [(str ''file'', FormFile (File (str ''a.pdf'') [0x25])),
                            (str ''answer_length'', FormText (Str (str ''long'')))]\<rparr>"
    by (simp add: eval_defs)
  from handleAnalyze_request_shape [OF t] handleAnalyze_request_shape [OF p] t p
  show ?thesis
    by (auto simp: eval_defs)
qed

lemma handleDownload_request:
  "answerLength s \<noteq> Undefined \<Longrightarrow> snd (handleDownload s) = Some r \<Longrightarrow>
     r = \<lparr>url = API_PREFIX @ str ''/generate-pdf'', http_method = str ''POST'',
          headers = [(str ''Content-Type'', str ''application/json'')],
          body = JsonBody [(str ''analysis'', analysis s),
                           (str ''answer_length'', answerLength s),
                           (str ''notes'', notes_object (notesByHat s))]\<rparr>"
  by (auto simp: handleDownload_def JSON_stringify_def notes_object_def split: if_splits)

text \<open>
  Claim C6: in every state of a run, a request that \<open>handleDownload\<close> issues posts a JSON
  body with exactly the members \<open>analysis\<close>, the analysis held in the state,
  \<open>answer_length\<close>, and \<open>notes\<close>, the notes object of the state.
\<close>

theorem handleDownload_request_shape:
  "snd (handleDownload (run evs)) = Some r \<Longrightarrow>
     r = \<lparr>url = API_PREFIX @ str ''/generate-pdf'', http_method = str ''POST'',
          headers = [(str ''Content-Type'', str ''application/json'')],
          body = JsonBody [(str ''analysis'', analysis (run evs)),
                           (str ''answer_length'', answerLength (run evs)),
                           (str ''notes'', notes_object (notesByHat (run evs)))]\<rparr>"
  using handleDownload_request [OF answerLength_run] .

theorem handleDownload_request_shape_witness:
  "snd (handleDownload
          (run [AnalyzeSettled
                  \<lparr>outcome = Response True (Inr (Obj [(str ''analysis'', Obj [(str ''blue'', Null)])])),
                   runtime_text = []\<rparr>,
                ChangeNotes (str ''n'')])) =
     Some \<lparr>url = str ''/api/generate-pdf'', http_method = str ''POST'',
           headers = [(str ''Content-Type'', str ''application/json'')],
           body = JsonBody [(str ''analysis'', Obj [(str ''blue'', Null)]),
                            (str ''answer_length'', Str (str ''long'')),
                            (str ''notes'',
                             Obj [(str ''blue'', Str (str ''n'')), (str ''white'', Str []),
                                  (str ''red'', Str []), (str ''yellow'', Str []),
                                  (str ''black'', Str []), (str ''green'', Str [])])]\<rparr>"
proof -
  define evs where "evs =
     [AnalyzeSettled
        \<lparr>outcome = Response True (Inr (Obj [(str ''analysis'', Obj [(str ''blue'', Null)])])),
         runtime_text = []\<rparr>,
      ChangeNotes (str ''n'')]"
  have a: "analysis (run evs) = Obj [(str ''blue'', Null)]"
    by (simp add: evs_def run_def init_state_def handleAnalyze_settle_def setNotesForHat_def
          opt_prop_def Let_def)
  have l: "answerLength (run evs) = Str (str ''long'')"
    by (simp add: evs_def run_def init_state_def handleAnalyze_settle_def setNotesForHat_def
          opt_prop_def Let_def)
  have n: "notesByHat (run evs) =
      [(str ''blue'', str ''n''), (str ''white'', []), (str ''red'', []), (str ''yellow'', []),
       (str ''black'', []), (str ''green'', [])]"
    by (simp add: evs_def run_def init_state_def handleAnalyze_settle_def setNotesForHat_def
          opt_prop_def Let_def Object_fromEntries_def HATS_def)
  from a obtain r where r: "snd (handleDownload (run evs)) = Some r"
    by (simp add: handleDownload_def)
  from handleDownload_request_shape [OF r] r a l n
  have "snd (handleDownload (run evs)) =
     Some \<lparr>url = str ''/api/generate-pdf'', http_method = str ''POST'',
           headers = [(str ''Content-Type'', str ''application/json'')],
           body = JsonBody [(str ''analysis'', Obj [(str ''blue'', Null)]),
                            (str ''answer_length'', Str (str ''long'')),
                            (str ''notes'',
                             Obj [(str ''blue'', Str (str ''n'')), (str ''white'', Str []),
                                  (str ''red'', Str []), (str ''yellow'', Str []),
                                  (str ''black'', Str []), (str ''green'', Str [])])]\<rparr>"
    by (simp add: notes_object_def API_PREFIX_def str_def)
  then show ?thesis
    unfolding evs_def .
qed

text \<open>
  Claim C7 says that a report export requested without an analysis fails with an
  ExportError. The client signals a failure of a handler through \<open>error\<close>, which the page
  renders as an alert when it is not empty; \<open>handleDownload\<close> writes it only in the \<open>catch\<close>
  block behind its guard. In the initial state \<open>analysis\<close> is \<open>null\<close>, and \<open>handleDownload\<close>
  there issues no request and signals nothing: \<open>error\<close> is still the empty string, after
  the call and after a click on the download button.
\<close>

theorem handleDownload_null_signals_no_error:
  "analysis init_state = Null \<and>
   snd (handleDownload init_state) = None \<and>
   error (fst (handleDownload init_state)) = [] \<and>
   error (step ClickDownload init_state) = []"
  by (simp add: handleDownload_def init_state_def)

text \<open>
  Claim C7, as the code has it: when no analysis is held (\<open>analysis\<close> is \<open>null\<close>, or any
  falsy value), \<open>handleDownload\<close> returns at its guard. It issues no generate-report
  request and leaves the whole state as it is, so it raises and shows no error; and a
  click on the download button, which is disabled then, changes nothing.
\<close>

theorem handleDownload_without_analysis:
  "\<not> truthy (analysis s) \<Longrightarrow>
     handleDownload s = (s, None) \<and>
     error (fst (handleDownload s)) = error s \<and>
     step ClickDownload s = s"
  by (simp add: handleDownload_def)

theorem handleDownload_without_analysis_witness:
  "analysis init_state = Null \<and> handleDownload init_state = (init_state, None) \<and>
   error (fst (handleDownload init_state)) = error init_state \<and>
   step ClickDownload init_state = init_state"
proof -
  have a: "analysis init_state = Null" by (simp add: init_state_def)
  then have "\<not> truthy (analysis init_state)" by simp
  from handleDownload_without_analysis [OF this] a show ?thesis by simp
qed

section \<open>The notes do not reach the analysis request\<close>

lemma handleAnalyze_request_notes:
  "snd (handleAnalyze (s\<lparr>notesByHat := notes\<rparr>)) = snd (handleAnalyze s)"
  by (simp add: handleAnalyze_def isReadyToAnalyze_def structuredText_def Let_def
        split: option.split)

lemma step_notes_event:
  "is_notes_event e \<Longrightarrow> (step e s)\<lparr>notesByHat := n\<rparr> = s\<lparr>notesByHat := n\<rparr>"
  by (cases e) (simp_all add: setNotesForHat_def split: option.split)

lemma settle_notes:
  "(handleAnalyze_settle r (s\<lparr>notesByHat := m\<rparr>))\<lparr>notesByHat := n\<rparr> =
   (handleAnalyze_settle r s)\<lparr>notesByHat := n\<rparr>"
  by (simp add: handleAnalyze_settle_def analyze_caught_def Let_def
        split: fetch_outcome.split sum.split)

lemma step_other_event:
  "\<not> is_notes_event e \<Longrightarrow>
     (step e (s\<lparr>notesByHat := m\<rparr>))\<lparr>notesByHat := n\<rparr> = (step e s)\<lparr>notesByHat := n\<rparr>"
proof (cases e)
  case (AnalyzeSettled r)
  then show ?thesis by (simp add: settle_notes)
qed (simp_all add: handleAnalyze_def isReadyToAnalyze_def structuredText_def handleDownload_def
       handleDownload_settle_def download_caught_def handleCopy_def activeAnalysis_def
       otherHats_def Let_def split: option.split download_outcome.split)

lemma run_without_notes:
  "(run (filter (\<lambda>e. \<not> is_notes_event e) evs))\<lparr>notesByHat := n\<rparr> = (run evs)\<lparr>notesByHat := n\<rparr>"
proof (induction evs arbitrary: n rule: rev_induct)
  case Nil
  show ?case by simp
next
  case (snoc e evs)
  show ?case
  proof (cases "is_notes_event e")
    case True
    then show ?thesis
      by (simp add: run_snoc step_notes_event snoc.IH)
  next
    case False
    define A where "A = run (filter (\<lambda>e. \<not> is_notes_event e) evs)"
    define B where "B = run evs"
    have "A\<lparr>notesByHat := notesByHat A\<rparr> = B\<lparr>notesByHat := notesByHat A\<rparr>"
      unfolding A_def B_def by (rule snoc.IH)
    then have "A = B\<lparr>notesByHat := notesByHat A\<rparr>" by simp
    then have "(step e A)\<lparr>notesByHat := n\<rparr> = (step e (B\<lparr>notesByHat := notesByHat A\<rparr>))\<lparr>notesByHat := n\<rparr>"
      by simp
    also have "\<dots> = (step e B)\<lparr>notesByHat := n\<rparr>"
      using False by (rule step_other_event)
    finally show ?thesis
      using False by (simp add: run_snoc A_def B_def)
  qed
qed

text \<open>
  Claim C8: the notes neither influence nor enter a submit-analysis request. Two states
  that differ only in \<open>notesByHat\<close> give the same request to \<open>fetch\<close>; over a whole run,
  the request is the one of the run without its notes events; and the notes go out in the
  body of the generate-report request, under \<open>notes\<close>.
\<close>

theorem handleAnalyze_ignores_notes:
  "snd (handleAnalyze (s\<lparr>notesByHat := notes\<rparr>)) = snd (handleAnalyze s) \<and>
   snd (handleAnalyze (run evs)) =
     snd (handleAnalyze (run (filter (\<lambda>e. \<not> is_notes_event e) evs))) \<and>
   map_option body (snd (handleDownload (s\<lparr>notesByHat := notes\<rparr>))) =
     (if truthy (analysis s)
      then Some (JSON_stringify [(str ''analysis'', analysis s),
                                 (str ''answer_length'', answerLength s),
                                 (str ''notes'', notes_object notes)])
      else None)"
proof -
  have "snd (handleAnalyze (run evs)) = snd (handleAnalyze ((run evs)\<lparr>notesByHat := []\<rparr>))"
    by (simp add: handleAnalyze_request_notes)
  also have "\<dots> =
      snd (handleAnalyze ((run (filter (\<lambda>e. \<not> is_notes_event e) evs))\<lparr>notesByHat := []\<rparr>))"
    by (simp add: run_without_notes)
  also have "\<dots> = snd (handleAnalyze (run (filter (\<lambda>e. \<not> is_notes_event e) evs)))"
    by (simp add: handleAnalyze_request_notes)
  finally show ?thesis
    by (simp add: handleAnalyze_request_notes handleDownload_def)
qed

theorem handleAnalyze_ignores_notes_witness:
  "snd (handleAnalyze (run [ChangeTopic (str ''Hi''), ChangeNotes (str ''secret'')])) =
     Some \<lparr>url = str ''/api/analyze'', http_method = str ''POST'',
           headers = [(str ''Content-Type'', str ''application/json'')],
           body = JsonBody [(str ''text'', Str (str ''# Topic / Problem Statement'' @ nl @ str ''Hi'')),
                            (str ''answer_length'', Str (str ''long''))]\<rparr>"
proof -
  have "snd (handleAnalyze (run [ChangeTopic (str ''Hi'')])) =
     Some \<lparr>url = str ''/api/analyze'', http_method = str ''POST'',
           headers = [(str ''Content-Type'', str ''application/json'')],
           body = JsonBody [(str ''text'', Str (str ''# Topic / Problem Statement'' @ nl @ str ''Hi'')),
                            (str ''answer_length'', Str (str ''long''))]\<rparr>"
    by (simp add: eval_defs)
  with handleAnalyze_ignores_notes
    [where evs = "[ChangeTopic (str ''Hi''), ChangeNotes (str ''secret'')]"]
  show ?thesis by simp
qed

section \<open>The selected hat and the keys of the notes\<close>

lemma step_selectedHat:
  "selectedHat (step e s) = selectedHat s \<or> selectedHat (step e s) \<in> key ` set HATS"
proof (cases e)
  case (AnalyzeSettled r)
  then show ?thesis
    by (auto simp: handleAnalyze_settle_def analyze_caught_def Let_def blue_key
          split: fetch_outcome.splits sum.splits)
next
  case (ClickOtherHat i)
  then show ?thesis using otherHats_key [of i s] by simp
qed (simp_all add: handleAnalyze_def handleDownload_def handleDownload_settle_def
        download_caught_def handleCopy_def setNotesForHat_def Let_def
        split: option.split download_outcome.split)

lemma find_key: "k \<in> key ` set hs \<Longrightarrow> \<exists>h. find (\<lambda>h. key h = k) hs = Some h \<and> key h = k"
  by (induction hs) auto

text \<open>
  Claim C9: the selected hat is always one of the six hat keys. It starts as \<open>blue\<close>; every
  event leaves it as it is or sets it to the key of a member of \<open>HATS\<close> (\<open>blue\<close> is one);
  so in every state of a run it is a hat key, and the lookup of the active hat in \<open>HATS\<close>
  finds the hat with that key.
\<close>

theorem selectedHat_is_hat_key:
  "selectedHat init_state = str ''blue'' \<and>
   (\<forall>e s. selectedHat (step e s) = selectedHat s \<or> selectedHat (step e s) \<in> set (map key HATS)) \<and>
   selectedHat (run evs) \<in> set (map key HATS) \<and>
   (\<exists>h. activeHat (run evs) = Some h \<and> h \<in> set HATS \<and> key h = selectedHat (run evs))"
proof -
  have k: "selectedHat (run evs) \<in> key ` set HATS"
    using state_inv_run [of evs] by (simp add: state_inv_def)
  from find_key [OF k] obtain h
    where h: "activeHat (run evs) = Some h" "key h = selectedHat (run evs)"
    by (auto simp: activeHat_def)
  then have "h \<in> set HATS"
    by (auto simp: activeHat_def find_Some_iff)
  with h k step_selectedHat show ?thesis
    by (simp add: init_state_def)
qed

theorem selectedHat_is_hat_key_witness:
  "selectedHat
     (run [AnalyzeSettled
             \<lparr>outcome = Response True (Inr (Obj [(str ''analysis'', Obj [(str ''red'', Null)])])),
              runtime_text = []\<rparr>,
           ClickHatTab 2]) = str ''red'' \<and>
   map_option label
     (activeHat
        (run [AnalyzeSettled
                \<lparr>outcome = Response True (Inr (Obj [(str ''analysis'', Obj [(str ''red'', Null)])])),
                 runtime_text = []\<rparr>,
              ClickHatTab 2])) = Some (str ''Red'')"
proof -
  define evs where "evs =
     [AnalyzeSettled
        \<lparr>outcome = Response True (Inr (Obj [(str ''analysis'', Obj [(str ''red'', Null)])])),
         runtime_text = []\<rparr>,
      ClickHatTab 2]"
  have s: "selectedHat (run evs) = str ''red''"
    by (simp add: evs_def run_def init_state_def handleAnalyze_settle_def opt_prop_def
          Let_def HATS_def)
  from selectedHat_is_hat_key [of evs] obtain h
    where h: "activeHat (run evs) = Some h" "key h = selectedHat (run evs)"
    by blast
  from h s have "find (\<lambda>h. key h = str ''red'') HATS = Some h"
    by (simp add: activeHat_def)
  then have "label h = str ''Red''"
    by (auto simp: HATS_def)
  with h s show ?thesis
    by (simp add: evs_def)
qed

text \<open>
  Claim C10: the keys of \<open>notesByHat\<close> never change. The initial object has exactly the six
  hat keys, in the order of \<open>HATS\<close>; in every state of a run the keys are exactly these; and
  setting the note of the selected hat, to a text or to the empty string, keeps them.
\<close>

theorem notesByHat_keys_fixed:
  "map fst (notesByHat init_state) = map key HATS \<and>
   map fst (notesByHat (run evs)) = map key HATS \<and>
   fst ` set (notesByHat (run evs)) = set (map key HATS) \<and>
   map fst (notesByHat (setNotesForHat (selectedHat (run evs)) v (run evs))) = map key HATS \<and>
   map fst (notesByHat (step ClickClearNotes (run evs))) = map key HATS"
proof -
  have "map fst (notesByHat (run evs)) = map key HATS"
    using state_inv_run [of evs] by (simp add: state_inv_def)
  moreover from this have "fst ` set (notesByHat (run evs)) = set (map key HATS)"
    by (metis set_map)
  moreover have "map fst (notesByHat init_state) = map key HATS"
    using state_inv_init by (simp add: state_inv_def)
  moreover have
    "map fst (notesByHat (setNotesForHat (selectedHat (run evs)) v (run evs))) = map key HATS"
    using state_inv_setNotes [OF state_inv_run, of evs v] by (simp add: state_inv_def)
  moreover have "map fst (notesByHat (step ClickClearNotes (run evs))) = map key HATS"
    using state_inv_step [OF state_inv_run, of ClickClearNotes evs] by (simp add: state_inv_def)
  ultimately show ?thesis by simp
qed

theorem notesByHat_keys_fixed_witness:
  "notesByHat (run [ChangeNotes (str ''n'')]) =
     [(str ''blue'', str ''n''), (str ''white'', []), (str ''red'', []), (str ''yellow'', []),
      (str ''black'', []), (str ''green'', [])] \<and>
   notesByHat (run [ChangeNotes (str ''n''), ClickClearNotes]) =
     [(str ''blue'', []), (str ''white'', []), (str ''red'', []), (str ''yellow'', []),
      (str ''black'', []), (str ''green'', [])] \<and>
   map fst (notesByHat (run [ChangeNotes (str ''n''), ClickClearNotes])) = map key HATS"
proof -
  have k: "map fst (notesByHat (run [ChangeNotes (str ''n''), ClickClearNotes])) = map key HATS"
    using notesByHat_keys_fixed [where evs = "[ChangeNotes (str ''n''), ClickClearNotes]"]
    by simp
  have "notesByHat (run [ChangeNotes (str ''n'')]) =
     [(str ''blue'', str ''n''), (str ''white'', []), (str ''red'', []), (str ''yellow'', []),
      (str ''black'', []), (str ''green'', [])]"
    by (simp add: run_def init_state_def setNotesForHat_def Object_fromEntries_def HATS_def)
  moreover have "notesByHat (run [ChangeNotes (str ''n''), ClickClearNotes]) =
     [(str ''blue'', []), (str ''white'', []), (str ''red'', []), (str ''yellow'', []),
      (str ''black'', []), (str ''green'', [])]"
    by (simp add: run_def init_state_def setNotesForHat_def Object_fromEntries_def HATS_def)
  ultimately show ?thesis using k by simp
qed

end
